theory Spec2Isabelle
  imports Main "HOL-Library.Word"
begin

section \<open>pthreadpp: lifecycle wrappers and the error-checked mutex\<close>

text \<open>
  A shallow embedding of \<^verbatim>\<open>include/dropins/pthreadpp.h\<close>.

  \<^item> A C \<^verbatim>\<open>int\<close> is a 32-bit word; the code only tests error codes against zero,
    \<^verbatim>\<open>EINVAL\<close> and \<^verbatim>\<open>EBUSY\<close>.
  \<^item> The pthread functions are not part of the header: they are parameters. A
    primitive reads the object it is pointed at and the rest of the process (the
    environment \<open>'w\<close>), and gives back its return code, the object as it left it and
    the new environment.
  \<^item> Every call site of a primitive goes through \<open>invoke\<close>, which appends the name of
    the primitive to the list \<open>calls\<close>; "the primitive is invoked once" is a statement
    about that list.
  \<^item> A member function takes \<open>this\<close> and the world and returns its result with both
    updated. A thrown \<^verbatim>\<open>fatal_error\<close> is the \<open>Inl\<close> branch of a sum.
\<close>

subsection \<open>Error codes and the outside world\<close>

type_synonym cint = "32 word"

text \<open>The two constants of \<^verbatim>\<open><errno.h>\<close> the header uses, with their Linux values.\<close>

definition EINVAL :: cint where
  "EINVAL = 22"

definition EBUSY :: cint where
  "EBUSY = 16"

datatype prim_call = Prim_init | Prim_destroy | Prim_lock | Prim_trylock | Prim_unlock

record 'w world =
  env :: 'w
  calls :: "prim_call list"

text \<open>A primitive called on a non-null object pointer.\<close>

type_synonym ('o, 'w) prim = "'o \<Rightarrow> 'w \<Rightarrow> (cint \<times> 'o) \<times> 'w"

text \<open>
  A primitive called on a pointer that may be null: \<open>None\<close> is the null pointer,
  \<open>Some x\<close> a pointer to an object whose content is \<open>x\<close>.
\<close>

type_synonym ('o, 'w) ptr_prim = "'o option \<Rightarrow> 'w \<Rightarrow> (cint \<times> 'o option) \<times> 'w"

definition invoke :: "prim_call \<Rightarrow> ('w \<Rightarrow> 'r \<times> 'w) \<Rightarrow> 'w world \<Rightarrow> 'r \<times> 'w world" where
  "invoke c f s =
     (case f (env s) of (r, e) \<Rightarrow> (r, s\<lparr>env := e, calls := calls s @ [c]\<rparr>))"

subsection \<open>wrapper_base\<close>

record 'o wrapper_base =
  m_valid :: bool
  m_object :: 'o

text \<open>
  \<^verbatim>\<open>wrapper_base()\<close> sets \<^verbatim>\<open>m_valid(false)\<close> and leaves \<^verbatim>\<open>m_object\<close> as the
  storage happens to be: that content is the argument \<open>junk\<close>.
\<close>

definition wrapper_base_default :: "'o \<Rightarrow> 'o wrapper_base" where
  "wrapper_base_default junk = \<lparr>m_valid = False, m_object = junk\<rparr>"

definition wrapper_base_from :: "'o \<Rightarrow> 'o wrapper_base" where
  "wrapper_base_from initializer = \<lparr>m_valid = True, m_object = initializer\<rparr>"

text \<open>
  \<^verbatim>\<open>operator&\<close>, const and mutable: \<^verbatim>\<open>m_valid ? &m_object : 0\<close>. The pointer to
  \<^verbatim>\<open>m_object\<close> is \<open>Some\<close> of the member.
\<close>

definition addr_const :: "'o wrapper_base \<Rightarrow> 'o option" where
  "addr_const this = (if m_valid this then Some (m_object this) else None)"

definition addr :: "'o wrapper_base \<Rightarrow> 'o option" where
  "addr this = (if m_valid this then Some (m_object this) else None)"

text \<open>What a callee wrote through a pointer obtained from \<open>addr\<close>.\<close>

definition store_through :: "'o option \<Rightarrow> 'o wrapper_base \<Rightarrow> 'o wrapper_base" where
  "store_through p this =
     (case p of
        None \<Rightarrow> this
      | Some x \<Rightarrow> (if m_valid this then this\<lparr>m_object := x\<rparr> else this))"

definition is_valid :: "'o wrapper_base \<Rightarrow> bool" where
  "is_valid this = m_valid this"

text \<open>
  \<^verbatim>\<open>destroy()\<close>: \<^verbatim>\<open>EINVAL\<close> when not valid; otherwise
  \<^verbatim>\<open>error=DestroyFn(&m_object); m_valid=!!error; return error;\<close>
\<close>

definition destroy ::
  "('o, 'w) prim \<Rightarrow> 'o wrapper_base \<Rightarrow> 'w world \<Rightarrow> cint \<times> 'o wrapper_base \<times> 'w world" where
  "destroy DestroyFn this s =
     (if \<not> m_valid this then (EINVAL, this, s)
      else
        (case invoke Prim_destroy (DestroyFn (m_object this)) s of
           ((error, obj), s') \<Rightarrow>
             (error, this\<lparr>m_object := obj, m_valid := (error \<noteq> 0)\<rparr>, s')))"

text \<open>
  \<^verbatim>\<open>attach(const ObjectType& object)\<close>: \<^verbatim>\<open>destroy(); m_object=object; m_valid=true;\<close>
  The argument is a reference, read after \<open>destroy\<close> has run. It refers either to an
  object outside the wrapper, which \<open>destroy\<close> does not reach, or to the wrapper's own
  \<^verbatim>\<open>m_object\<close>, and then the copy takes what \<open>DestroyFn\<close> left there.
\<close>

datatype 'o object_ref = Ref_object 'o | Ref_m_object

definition attach ::
  "('o, 'w) prim \<Rightarrow> 'o object_ref \<Rightarrow> 'o wrapper_base \<Rightarrow> 'w world \<Rightarrow>
     'o wrapper_base \<times> 'w world" where
  "attach DestroyFn object this s =
     (case destroy DestroyFn this s of
        (_, this', s') \<Rightarrow>
          (this'\<lparr>m_object := (case object of Ref_object v \<Rightarrow> v | Ref_m_object \<Rightarrow> m_object this'),
                 m_valid := True\<rparr>, s'))"

definition detach :: "'o wrapper_base \<Rightarrow> 'o \<times> 'o wrapper_base" where
  "detach this = (m_object this, this\<lparr>m_valid := False\<rparr>)"

definition init_done :: "cint \<Rightarrow> 'o wrapper_base \<Rightarrow> cint \<times> 'o wrapper_base" where
  "init_done init_error this = (init_error, this\<lparr>m_valid := (init_error = 0)\<rparr>)"

text \<open>
  The end of a wrapper's lifetime. Neither \<^verbatim>\<open>wrapper_base\<close> nor \<^verbatim>\<open>wrapper\<close> nor
  \<^verbatim>\<open>attr_wrapper\<close> declares a destructor, so the implicit one runs: it executes no
  statement and releases the two members, which are a \<^verbatim>\<open>bool\<close> and the plain
  pthread structure.
\<close>

definition wrapper_base_end_of_life :: "('o, 'w) prim \<Rightarrow> 'o wrapper_base \<Rightarrow> 'w world \<Rightarrow> 'w world" where
  "wrapper_base_end_of_life DestroyFn this s = s"

subsection \<open>wrapper (the object wrapper with attributes)\<close>

text \<open>
  \<^verbatim>\<open>init(attrs)\<close>: \<^verbatim>\<open>base::destroy(); return base::init_done(InitFn(base::handle(),attrs));\<close>
  where \<^verbatim>\<open>handle()\<close> is \<^verbatim>\<open>&m_object\<close>, never null, and \<open>attrs\<close> may be null.
\<close>

definition init ::
  "('o \<Rightarrow> 'a option \<Rightarrow> 'w \<Rightarrow> (cint \<times> 'o) \<times> 'w) \<Rightarrow> ('o, 'w) prim \<Rightarrow> 'a option \<Rightarrow>
     'o wrapper_base \<Rightarrow> 'w world \<Rightarrow> cint \<times> 'o wrapper_base \<times> 'w world" where
  "init InitFn DestroyFn attrs this s =
     (case destroy DestroyFn this s of
        (_, this1, s1) \<Rightarrow>
          (case invoke Prim_init (InitFn (m_object this1) attrs) s1 of
             ((init_error, obj), s2) \<Rightarrow>
               (case init_done init_error (this1\<lparr>m_object := obj\<rparr>) of
                  (r, this2) \<Rightarrow> (r, this2, s2))))"

subsection \<open>fatal_error and mutex\<close>

datatype fatal_error = Fatal_error (error_code: cint)

record ('a, 'o, 'w) pthread =
  pthread_mutex_init :: "'o \<Rightarrow> 'a option \<Rightarrow> 'w \<Rightarrow> (cint \<times> 'o) \<times> 'w"
  pthread_mutex_destroy :: "('o, 'w) prim"
  pthread_mutex_lock :: "('o, 'w) ptr_prim"
  pthread_mutex_trylock :: "('o, 'w) ptr_prim"
  pthread_mutex_unlock :: "('o, 'w) ptr_prim"

record 'o mutex =
  m_mutex :: "'o wrapper_base"

definition check_error :: "cint \<Rightarrow> fatal_error + unit" where
  "check_error code = (if code \<noteq> 0 then Inl (Fatal_error code) else Inr ())"

text \<open>
  \<^verbatim>\<open>mutex(attrs)\<close>: the member \<^verbatim>\<open>m_mutex\<close> is default-constructed, then
  \<^verbatim>\<open>check_error(m_mutex.init(attrs))\<close>. When that throws, no object exists; the
  member is released by \<open>wrapper_base_end_of_life\<close>.
\<close>

definition mutex_new ::
  "('a, 'o, 'w) pthread \<Rightarrow> 'a option \<Rightarrow> 'o \<Rightarrow> 'w world \<Rightarrow> (fatal_error + 'o mutex) \<times> 'w world" where
  "mutex_new P attrs junk s =
     (case init (pthread_mutex_init P) (pthread_mutex_destroy P) attrs
             (wrapper_base_default junk) s of
        (r, w, s1) \<Rightarrow>
          (case check_error r of
             Inl ex \<Rightarrow> (Inl ex, wrapper_base_end_of_life (pthread_mutex_destroy P) w s1)
           | Inr _ \<Rightarrow> (Inr \<lparr>m_mutex = w\<rparr>, s1)))"

definition mutex_from :: "'o \<Rightarrow> 'o mutex" where
  "mutex_from initializer = \<lparr>m_mutex = wrapper_base_from initializer\<rparr>"

definition mutex_delete :: "('a, 'o, 'w) pthread \<Rightarrow> 'o mutex \<Rightarrow> 'w world \<Rightarrow> 'w world" where
  "mutex_delete P this s =
     (case destroy (pthread_mutex_destroy P) (m_mutex this) s of
        (_, w, s1) \<Rightarrow> wrapper_base_end_of_life (pthread_mutex_destroy P) w s1)"

definition lock ::
  "('a, 'o, 'w) pthread \<Rightarrow> 'o mutex \<Rightarrow> 'w world \<Rightarrow> (fatal_error + unit) \<times> 'o mutex \<times> 'w world" where
  "lock P this s =
     (case invoke Prim_lock (pthread_mutex_lock P (addr (m_mutex this))) s of
        ((error, p), s1) \<Rightarrow>
          (check_error error, this\<lparr>m_mutex := store_through p (m_mutex this)\<rparr>, s1))"

definition trylock ::
  "('a, 'o, 'w) pthread \<Rightarrow> 'o mutex \<Rightarrow> 'w world \<Rightarrow> (fatal_error + bool) \<times> 'o mutex \<times> 'w world" where
  "trylock P this s =
     (case invoke Prim_trylock (pthread_mutex_trylock P (addr (m_mutex this))) s of
        ((error, p), s1) \<Rightarrow>
          (let this1 = this\<lparr>m_mutex := store_through p (m_mutex this)\<rparr>
           in if error = EBUSY then (Inr False, this1, s1)
              else (case check_error error of
                      Inl ex \<Rightarrow> (Inl ex, this1, s1)
                    | Inr _ \<Rightarrow> (Inr True, this1, s1))))"

definition unlock ::
  "('a, 'o, 'w) pthread \<Rightarrow> 'o mutex \<Rightarrow> 'w world \<Rightarrow> (fatal_error + unit) \<times> 'o mutex \<times> 'w world" where
  "unlock P this s =
     (case invoke Prim_unlock (pthread_mutex_unlock P (addr (m_mutex this))) s of
        ((error, p), s1) \<Rightarrow>
          (check_error error, this\<lparr>m_mutex := store_through p (m_mutex this)\<rparr>, s1))"

definition handle_const :: "'o mutex \<Rightarrow> 'o option" where
  "handle_const this = addr_const (m_mutex this)"

definition handle :: "'o mutex \<Rightarrow> 'o option" where
  "handle this = addr (m_mutex this)"

subsection \<open>Callers' sequences\<close>

text \<open>\<^verbatim>\<open>w.destroy(); w.destroy();\<close> with what each call returned and left behind.\<close>

definition destroy_twice ::
  "('o, 'w) prim \<Rightarrow> 'o wrapper_base \<Rightarrow> 'w world \<Rightarrow>
     (cint \<times> 'o wrapper_base \<times> 'w world) \<times> (cint \<times> 'o wrapper_base \<times> 'w world)" where
  "destroy_twice DestroyFn this s =
     (case destroy DestroyFn this s of
        (r1, this1, s1) \<Rightarrow> ((r1, this1, s1), destroy DestroyFn this1 s1))"

text \<open>
  \<^verbatim>\<open>v = w.detach(); w.attach(v);\<close> where \<open>v\<close> is the copy \<open>detach\<close> returned, an
  object of the caller.
\<close>

definition detach_attach ::
  "('o, 'w) prim \<Rightarrow> 'o wrapper_base \<Rightarrow> 'w world \<Rightarrow> 'o wrapper_base \<times> 'w world" where
  "detach_attach DestroyFn this s =
     (case detach this of (v, this1) \<Rightarrow> attach DestroyFn (Ref_object v) this1 s)"

text \<open>
  A caller using a constructed mutex: any sequence of member calls, going on after a
  caught \<^verbatim>\<open>fatal_error\<close>. The two \<^verbatim>\<open>handle()\<close> forms only read.
\<close>

datatype mutex_op = Op_lock | Op_trylock | Op_unlock | Op_handle | Op_handle_const

fun mutex_step ::
  "('a, 'o, 'w) pthread \<Rightarrow> mutex_op \<Rightarrow> 'o mutex \<times> 'w world \<Rightarrow> 'o mutex \<times> 'w world" where
  "mutex_step P Op_lock (m, s) = snd (lock P m s)"
| "mutex_step P Op_trylock (m, s) = snd (trylock P m s)"
| "mutex_step P Op_unlock (m, s) = snd (unlock P m s)"
| "mutex_step P Op_handle (m, s) = (m, s)"
| "mutex_step P Op_handle_const (m, s) = (m, s)"

fun mutex_run ::
  "('a, 'o, 'w) pthread \<Rightarrow> mutex_op list \<Rightarrow> 'o mutex \<times> 'w world \<Rightarrow> 'o mutex \<times> 'w world" where
  "mutex_run P [] ms = ms"
| "mutex_run P (x # xs) ms = mutex_run P xs (mutex_step P x ms)"

subsection \<open>Simulated primitives\<close>

text \<open>
  Stand-ins for the pthread functions that return a chosen code, leave the object as
  it is and count in the environment how often they ran.
\<close>

definition stub_prim :: "cint \<Rightarrow> (nat, nat) prim" where
  "stub_prim c obj e = ((c, obj), Suc e)"

definition stub_init :: "cint \<Rightarrow> nat \<Rightarrow> nat option \<Rightarrow> nat \<Rightarrow> (cint \<times> nat) \<times> nat" where
  "stub_init c obj attrs e = ((c, obj), Suc e)"

definition stub_ptr_prim :: "cint \<Rightarrow> (nat, nat) ptr_prim" where
  "stub_ptr_prim c p e = ((c, p), Suc e)"

text \<open>A stand-in that also overwrites the object it is pointed at with \<open>v\<close>.\<close>

definition stub_ptr_store :: "cint \<Rightarrow> nat \<Rightarrow> (nat, nat) ptr_prim" where
  "stub_ptr_store c v p e = ((c, (case p of None \<Rightarrow> None | Some _ \<Rightarrow> Some v)), Suc e)"

definition stub_pthread :: "cint \<Rightarrow> cint \<Rightarrow> cint \<Rightarrow> cint \<Rightarrow> cint \<Rightarrow> (nat, nat, nat) pthread" where
  "stub_pthread ci cd cl ct cu =
     \<lparr>pthread_mutex_init = stub_init ci,
      pthread_mutex_destroy = stub_prim cd,
      pthread_mutex_lock = stub_ptr_prim cl,
      pthread_mutex_trylock = stub_ptr_prim ct,
      pthread_mutex_unlock = stub_ptr_prim cu\<rparr>"

definition world0 :: "nat world" where
  "world0 = \<lparr>env = 0, calls = []\<rparr>"

section \<open>Properties\<close>

subsection \<open>destroy\<close>

lemmas stub_defs = stub_prim_def stub_init_def stub_ptr_prim_def stub_pthread_def world0_def
  wrapper_base_from_def wrapper_base_default_def EINVAL_def EBUSY_def

text \<open>
  C1, as the code has it. On a valid wrapper \<open>destroy\<close> invokes the primitive's destroy
  function once, on the stored object and the current environment, and returns its code
  to the caller. The wrapper is invalid afterwards exactly when that code is zero: after
  a nonzero code it is still valid.
\<close>

theorem destroy_valid_once:
  assumes "m_valid this"
    and "DestroyFn (m_object this) (env s) = ((c, obj), e)"
    and "destroy DestroyFn this s = (r, this', s')"
  shows "r = c \<and> calls s' = calls s @ [Prim_destroy] \<and> env s' = e \<and>
         m_object this' = obj \<and> (m_valid this' \<longleftrightarrow> c \<noteq> 0)"
  using assms by (auto simp: destroy_def invoke_def)

theorem destroy_valid_once_witness:
  "m_valid (wrapper_base_from (7::nat)) \<and>
   fst (destroy (stub_prim 0) (wrapper_base_from 7) world0) = 0 \<and>
   calls (snd (snd (destroy (stub_prim 0) (wrapper_base_from 7) world0))) = [Prim_destroy] \<and>
   \<not> m_valid (fst (snd (destroy (stub_prim 0) (wrapper_base_from 7) world0))) \<and>
   fst (destroy (stub_prim EBUSY) (wrapper_base_from 7) world0) = EBUSY \<and>
   calls (snd (snd (destroy (stub_prim EBUSY) (wrapper_base_from 7) world0))) = [Prim_destroy]"
proof -
  have v: "m_valid (wrapper_base_from (7::nat))"
    by (simp add: wrapper_base_from_def)
  have p: "stub_prim c (m_object (wrapper_base_from 7)) (env world0) = ((c, 7), Suc 0)" for c
    by (simp add: stub_defs)
  have d: "destroy (stub_prim c) (wrapper_base_from 7) world0 =
      (fst (destroy (stub_prim c) (wrapper_base_from 7) world0),
       fst (snd (destroy (stub_prim c) (wrapper_base_from 7) world0)),
       snd (snd (destroy (stub_prim c) (wrapper_base_from 7) world0)))" for c
    by simp
  show ?thesis
    using v destroy_valid_once [OF v p [of 0] d [of 0]]
      destroy_valid_once [OF v p [of EBUSY] d [of EBUSY]]
    by (simp add: world0_def EBUSY_def)
qed

text \<open>
  C1 as stated fails: a valid wrapper whose primitive destroy returns \<^verbatim>\<open>EBUSY\<close>
  is still valid after \<open>destroy\<close>.
\<close>

theorem destroy_nonzero_stays_valid:
  "m_valid (wrapper_base_from (7::nat)) \<and>
   fst (destroy (stub_prim EBUSY) (wrapper_base_from 7) world0) \<noteq> 0 \<and>
   m_valid (fst (snd (destroy (stub_prim EBUSY) (wrapper_base_from 7) world0)))"
  by (simp add: destroy_def invoke_def stub_defs)

text \<open>
  C2 fails on the code: the header promises wrappers "automatic destruction" and
  destructors that ignore error codes, but no wrapper class declares a destructor. A
  valid wrapper whose lifetime ends makes no primitive call; the environment is as it was.
\<close>

theorem wrapper_end_of_life_no_destroy:
  "m_valid (wrapper_base_from (7::nat)) \<and>
   wrapper_base_end_of_life (stub_prim 0) (wrapper_base_from 7) world0 = world0 \<and>
   calls (wrapper_base_end_of_life (stub_prim 0) (wrapper_base_from 7) world0) = []"
  by (simp add: wrapper_base_end_of_life_def stub_defs)

text \<open>
  C3, as the code has it. On a valid wrapper the first \<open>destroy\<close> invokes the
  primitive once and returns its code. When that code is zero the wrapper is invalid,
  and the second \<open>destroy\<close> returns \<^verbatim>\<open>EINVAL\<close>, invokes nothing and changes
  nothing. When that code is nonzero the wrapper is still valid and the second
  \<open>destroy\<close> invokes the primitive again.
\<close>

theorem destroy_twice_second:
  assumes "m_valid this"
    and "DestroyFn (m_object this) (env s) = ((c, obj), e)"
    and "destroy_twice DestroyFn this s = ((r1, this1, s1), (r2, this2, s2))"
  shows "r1 = c \<and> calls s1 = calls s @ [Prim_destroy] \<and> (m_valid this1 \<longleftrightarrow> c \<noteq> 0) \<and>
         (c = 0 \<longrightarrow> r2 = EINVAL \<and> s2 = s1 \<and> this2 = this1 \<and> \<not> m_valid this2) \<and>
         (c \<noteq> 0 \<longrightarrow> calls s2 = calls s @ [Prim_destroy, Prim_destroy])"
proof -
  from assms(3) have first: "destroy DestroyFn this s = (r1, this1, s1)"
    and second: "destroy DestroyFn this1 s1 = (r2, this2, s2)"
    by (auto simp: destroy_twice_def split: prod.splits)
  from first assms(1,2) have r1: "r1 = c"
    and this1: "this1 = this\<lparr>m_object := obj, m_valid := (c \<noteq> 0)\<rparr>"
    and s1: "s1 = s\<lparr>env := e, calls := calls s @ [Prim_destroy]\<rparr>"
    by (auto simp: destroy_def invoke_def)
  have zero: "r2 = EINVAL \<and> s2 = s1 \<and> this2 = this1 \<and> \<not> m_valid this2" if "c = 0"
    using second that this1 by (auto simp: destroy_def)
  have nonzero: "calls s2 = calls s @ [Prim_destroy, Prim_destroy]" if "c \<noteq> 0"
    using second that this1 s1 by (auto simp: destroy_def invoke_def split: prod.splits)
  show ?thesis
    using r1 this1 s1 zero nonzero by simp
qed

theorem destroy_twice_second_witness:
  "m_valid (wrapper_base_from (7::nat)) \<and>
   destroy_twice (stub_prim 0) (wrapper_base_from 7) world0 =
     ((0, \<lparr>m_valid = False, m_object = 7\<rparr>, \<lparr>env = 1, calls = [Prim_destroy]\<rparr>),
      (EINVAL, \<lparr>m_valid = False, m_object = 7\<rparr>, \<lparr>env = 1, calls = [Prim_destroy]\<rparr>)) \<and>
   calls (snd (snd (snd (destroy_twice (stub_prim EBUSY) (wrapper_base_from 7) world0)))) =
     [Prim_destroy, Prim_destroy]"
proof -
  let ?w = "wrapper_base_from (7::nat)"
  have v: "m_valid ?w"
    by (simp add: wrapper_base_from_def)
  have p: "stub_prim c (m_object ?w) (env world0) = ((c, 7), Suc 0)" for c
    by (simp add: stub_defs)
  have d0: "destroy_twice (stub_prim 0) ?w world0 =
      ((0, \<lparr>m_valid = False, m_object = 7\<rparr>, \<lparr>env = 1, calls = [Prim_destroy]\<rparr>),
       (EINVAL, \<lparr>m_valid = False, m_object = 7\<rparr>, \<lparr>env = 1, calls = [Prim_destroy]\<rparr>))"
    by (simp add: destroy_twice_def destroy_def invoke_def stub_defs)
  let ?X = "destroy_twice (stub_prim EBUSY) ?w world0"
  have d1: "?X = ((fst (fst ?X), fst (snd (fst ?X)), snd (snd (fst ?X))),
                  (fst (snd ?X), fst (snd (snd ?X)), snd (snd (snd ?X))))"
    by simp
  show ?thesis
    using v d0 destroy_twice_second [OF v p [of 0] d0] destroy_twice_second [OF v p [of EBUSY] d1]
    by (simp add: world0_def EBUSY_def)
qed

text \<open>
  C3 as stated fails: after a first \<open>destroy\<close> whose primitive returned \<^verbatim>\<open>EBUSY\<close>,
  the second \<open>destroy\<close> returns \<^verbatim>\<open>EBUSY\<close>, not \<^verbatim>\<open>EINVAL\<close>, and the primitive has run
  twice.
\<close>

theorem destroy_twice_nonzero_again:
  "destroy_twice (stub_prim EBUSY) (wrapper_base_from (7::nat)) world0 =
     ((EBUSY, wrapper_base_from 7, \<lparr>env = 1, calls = [Prim_destroy]\<rparr>),
      (EBUSY, wrapper_base_from 7, \<lparr>env = 2, calls = [Prim_destroy, Prim_destroy]\<rparr>)) \<and>
   EBUSY \<noteq> EINVAL"
  by (simp add: destroy_twice_def destroy_def invoke_def stub_defs)

subsection \<open>attach, detach and the raw handle\<close>

text \<open>
  C8. On a valid wrapper, \<open>detach\<close> followed by \<open>attach\<close> of the value it returned
  gives back the wrapper as it was, valid and holding the same object, and leaves the
  world as it was: no primitive is invoked, neither init nor destroy.
\<close>

theorem detach_attach_restores:
  assumes "m_valid this"
  shows "detach_attach DestroyFn this s = (this, s) \<and>
         fst (detach this) = m_object this \<and>
         m_valid (fst (detach_attach DestroyFn this s)) \<and>
         m_object (fst (detach_attach DestroyFn this s)) = m_object this \<and>
         calls (snd (detach_attach DestroyFn this s)) = calls s"
  using assms by (simp add: detach_attach_def detach_def attach_def destroy_def)

theorem detach_attach_restores_witness:
  "m_valid (wrapper_base_from (7::nat)) \<and>
   detach_attach (stub_prim EBUSY) (wrapper_base_from 7) world0 = (wrapper_base_from 7, world0) \<and>
   calls (snd (detach_attach (stub_prim EBUSY) (wrapper_base_from 7) world0)) = []"
proof -
  have v: "m_valid (wrapper_base_from (7::nat))"
    by (simp add: wrapper_base_from_def)
  show ?thesis
    using v detach_attach_restores [OF v, of "stub_prim EBUSY" world0]
    by (simp add: world0_def)
qed

text \<open>
  C9. Both forms of \<^verbatim>\<open>operator&\<close> return the null pointer exactly when the wrapper is
  invalid, and the pointer to the stored object exactly when it is valid.
\<close>

theorem addr_null_iff_invalid:
  "(addr this = None \<longleftrightarrow> \<not> m_valid this) \<and>
   (addr this = Some (m_object this) \<longleftrightarrow> m_valid this) \<and>
   (addr_const this = None \<longleftrightarrow> \<not> m_valid this) \<and>
   (addr_const this = Some (m_object this) \<longleftrightarrow> m_valid this)"
  by (simp add: addr_def addr_const_def)

text \<open>
  C10. \<open>detach\<close> has no precondition and no failure branch: on any wrapper, valid or
  not, it returns the stored object as it is and leaves the wrapper invalid, the stored
  object untouched.
\<close>

theorem detach_any:
  "fst (detach this) = m_object this \<and>
   \<not> m_valid (snd (detach this)) \<and>
   m_object (snd (detach this)) = m_object this \<and>
   \<not> is_valid (snd (detach (wrapper_base_default junk))) \<and>
   fst (detach (wrapper_base_default junk)) = junk"
  by (simp add: detach_def is_valid_def wrapper_base_default_def)

subsection \<open>The mutex object\<close>

lemma store_through_valid [simp]: "m_valid (store_through p w) = m_valid w"
  by (simp add: store_through_def split: option.splits)

lemma lock_valid: "m_valid (m_mutex (fst (snd (lock P m s)))) = m_valid (m_mutex m)"
  by (simp add: lock_def split: prod.splits)

lemma unlock_valid: "m_valid (m_mutex (fst (snd (unlock P m s)))) = m_valid (m_mutex m)"
  by (simp add: unlock_def split: prod.splits)

lemma trylock_valid: "m_valid (m_mutex (fst (snd (trylock P m s)))) = m_valid (m_mutex m)"
  by (simp add: trylock_def Let_def split: prod.splits sum.splits)

lemma mutex_step_valid:
  "m_valid (m_mutex (fst (mutex_step P x ms))) = m_valid (m_mutex (fst ms))"
  by (cases x; cases ms) (simp_all add: lock_valid unlock_valid trylock_valid)

lemma mutex_run_valid:
  "m_valid (m_mutex (fst (mutex_run P xs ms))) = m_valid (m_mutex (fst ms))"
  by (induction xs arbitrary: ms) (simp_all add: mutex_step_valid)

lemma mutex_new_unfold:
  assumes "pthread_mutex_init P junk attrs (env s) = ((c, obj), e)"
  shows "mutex_new P attrs junk s =
           (if c \<noteq> 0 then Inl (Fatal_error c)
            else Inr \<lparr>m_mutex = \<lparr>m_valid = True, m_object = obj\<rparr>\<rparr>,
            s\<lparr>env := e, calls := calls s @ [Prim_init]\<rparr>)"
  using assms
  by (simp add: mutex_new_def init_def destroy_def invoke_def init_done_def check_error_def
      wrapper_base_default_def wrapper_base_end_of_life_def)

text \<open>
  C4. A mutex that either constructor has returned holds a valid wrapper, and the
  wrapper is still valid after any sequence of \<open>lock\<close>, \<open>trylock\<close>, \<open>unlock\<close> and
  \<open>handle\<close> calls, whatever the primitives return and whatever else happened to the
  world in between; its handle is then not null. An object the attribute constructor
  returned comes from an init call that returned zero.
\<close>

theorem mutex_stays_valid:
  assumes "m = mutex_from initializer \<or> mutex_new P attrs junk s0 = (Inr m, s1)"
  shows "m_valid (m_mutex m) \<and>
         m_valid (m_mutex (fst (mutex_run P ops (m, s)))) \<and>
         handle (fst (mutex_run P ops (m, s))) \<noteq> None \<and>
         (mutex_new P attrs junk s0 = (Inr m, s1) \<longrightarrow>
            fst (fst (pthread_mutex_init P junk attrs (env s0))) = 0)"
proof -
  obtain c obj e where i: "pthread_mutex_init P junk attrs (env s0) = ((c, obj), e)"
    by (metis surj_pair)
  have new: "m_valid (m_mutex m) \<and> c = 0" if "mutex_new P attrs junk s0 = (Inr m, s1)"
    using that unfolding mutex_new_unfold [OF i] by (auto split: if_splits)
  have v: "m_valid (m_mutex m)"
    using assms new by (auto simp: mutex_from_def wrapper_base_from_def)
  then have r: "m_valid (m_mutex (fst (mutex_run P ops (m, s))))"
    by (simp add: mutex_run_valid)
  then have h: "handle (fst (mutex_run P ops (m, s))) \<noteq> None"
    by (simp add: handle_def addr_def)
  show ?thesis
    using v r h new i by simp
qed

theorem mutex_stays_valid_witness:
  "m_valid (m_mutex (fst (mutex_run (stub_pthread 0 0 EINVAL EBUSY EINVAL)
       [Op_lock, Op_trylock, Op_handle, Op_unlock, Op_handle_const]
       (mutex_from 7, world0)))) \<and>
   mutex_new (stub_pthread 0 0 0 0 0) None 3 world0 =
     (Inr \<lparr>m_mutex = \<lparr>m_valid = True, m_object = 3\<rparr>\<rparr>, \<lparr>env = 1, calls = [Prim_init]\<rparr>) \<and>
   m_valid (m_mutex (fst (mutex_run (stub_pthread 0 0 0 0 0) [Op_trylock, Op_unlock]
       (\<lparr>m_mutex = \<lparr>m_valid = True, m_object = 3\<rparr>\<rparr>, \<lparr>env = 1, calls = [Prim_init]\<rparr>))))"
proof -
  have a: "mutex_from 7 = mutex_from (7::nat) \<or>
      mutex_new (stub_pthread 0 0 EINVAL EBUSY EINVAL) None 3 world0 = (Inr (mutex_from 7), world0)"
    by simp
  have n: "mutex_new (stub_pthread 0 0 0 0 0) None 3 world0 =
      (Inr \<lparr>m_mutex = \<lparr>m_valid = True, m_object = 3\<rparr>\<rparr>, \<lparr>env = 1, calls = [Prim_init]\<rparr>)"
    by (simp add: mutex_new_def init_def destroy_def invoke_def init_done_def check_error_def
        wrapper_base_end_of_life_def stub_defs)
  then have b: "\<lparr>m_mutex = \<lparr>m_valid = True, m_object = 3\<rparr>\<rparr> = mutex_from 5 \<or>
      mutex_new (stub_pthread 0 0 0 0 0) None 3 world0 =
      (Inr \<lparr>m_mutex = \<lparr>m_valid = True, m_object = 3\<rparr>\<rparr>, \<lparr>env = 1, calls = [Prim_init]\<rparr>)"
    by simp
  show ?thesis
    using n mutex_stays_valid [OF a,
        of "[Op_lock, Op_trylock, Op_handle, Op_unlock, Op_handle_const]" world0]
      mutex_stays_valid [OF b, of "[Op_trylock, Op_unlock]" "\<lparr>env = 1, calls = [Prim_init]\<rparr>"]
    by simp
qed

text \<open>
  C5. \<open>trylock\<close> invokes the primitive try-lock once. On \<^verbatim>\<open>EBUSY\<close> it returns false
  and throws nothing; on any other nonzero code it throws the fatal error carrying that
  code; on zero it returns true.
\<close>

theorem trylock_result:
  assumes "pthread_mutex_trylock P (addr (m_mutex this)) (env s) = ((c, p), e)"
    and "trylock P this s = (r, this', s')"
  shows "calls s' = calls s @ [Prim_trylock] \<and> env s' = e \<and>
         (c = EBUSY \<longrightarrow> r = Inr False) \<and>
         (c \<noteq> EBUSY \<and> c \<noteq> 0 \<longrightarrow> r = Inl (Fatal_error c)) \<and>
         (c = 0 \<longrightarrow> r = Inr True)"
  using assms
  by (auto simp: trylock_def invoke_def check_error_def Let_def EBUSY_def split: if_splits)

theorem trylock_result_witness:
  "fst (trylock (stub_pthread 0 0 0 EBUSY 0) (mutex_from 7) world0) = Inr False \<and>
   fst (trylock (stub_pthread 0 0 0 EINVAL 0) (mutex_from 7) world0) = Inl (Fatal_error EINVAL) \<and>
   fst (trylock (stub_pthread 0 0 0 0 0) (mutex_from 7) world0) = Inr True \<and>
   calls (snd (snd (trylock (stub_pthread 0 0 0 EBUSY 0) (mutex_from 7) world0))) = [Prim_trylock]"
proof -
  have p: "pthread_mutex_trylock (stub_pthread 0 0 0 c 0) (addr (m_mutex (mutex_from 7)))
      (env world0) = ((c, Some 7), Suc 0)" for c
    by (simp add: stub_defs mutex_from_def addr_def)
  have d: "trylock (stub_pthread 0 0 0 c 0) (mutex_from 7) world0 =
      (fst (trylock (stub_pthread 0 0 0 c 0) (mutex_from 7) world0),
       fst (snd (trylock (stub_pthread 0 0 0 c 0) (mutex_from 7) world0)),
       snd (snd (trylock (stub_pthread 0 0 0 c 0) (mutex_from 7) world0)))" for c
    by simp
  show ?thesis
    using trylock_result [OF p [of EBUSY] d [of EBUSY]] trylock_result [OF p [of EINVAL] d [of EINVAL]]
      trylock_result [OF p [of 0] d [of 0]]
    by (simp add: EBUSY_def EINVAL_def world0_def)
qed

text \<open>
  C6. When the primitive init returns a nonzero code, the attribute constructor throws
  the fatal error carrying that code and returns no object; when it returns zero, the
  constructor returns an object whose wrapper is valid and holds what init wrote. Init
  is the only primitive invoked.
\<close>

theorem mutex_new_result:
  assumes "pthread_mutex_init P junk attrs (env s) = ((c, obj), e)"
  shows "(c \<noteq> 0 \<longrightarrow> fst (mutex_new P attrs junk s) = Inl (Fatal_error c)) \<and>
         (c = 0 \<longrightarrow> (\<exists>m. fst (mutex_new P attrs junk s) = Inr m \<and>
                         m_valid (m_mutex m) \<and> m_object (m_mutex m) = obj)) \<and>
         calls (snd (mutex_new P attrs junk s)) = calls s @ [Prim_init]"
  unfolding mutex_new_unfold [OF assms] by simp

theorem mutex_new_result_witness:
  "fst (mutex_new (stub_pthread EINVAL 0 0 0 0) (Some 1) 3 world0) = Inl (Fatal_error EINVAL) \<and>
   (\<exists>m. fst (mutex_new (stub_pthread 0 0 0 0 0) (Some 1) 3 world0) = Inr m \<and>
        m_valid (m_mutex m)) \<and>
   calls (snd (mutex_new (stub_pthread EINVAL 0 0 0 0) (Some 1) 3 world0)) = [Prim_init]"
proof -
  have p: "pthread_mutex_init (stub_pthread c 0 0 0 0) 3 (Some 1) (env world0) = ((c, 3), Suc 0)"
    for c
    by (simp add: stub_defs)
  show ?thesis
    using mutex_new_result [OF p [of EINVAL]] mutex_new_result [OF p [of 0]]
    by (auto simp: EINVAL_def world0_def)
qed

lemma lock_unfold:
  assumes "pthread_mutex_lock P (addr (m_mutex this)) (env s) = ((c, p), e)"
  shows "lock P this s =
           (if c = 0 then Inr () else Inl (Fatal_error c),
            this\<lparr>m_mutex := store_through p (m_mutex this)\<rparr>,
            s\<lparr>env := e, calls := calls s @ [Prim_lock]\<rparr>)"
  using assms by (simp add: lock_def invoke_def check_error_def)

lemma unlock_unfold:
  assumes "pthread_mutex_unlock P (addr (m_mutex this)) (env s) = ((c, p), e)"
  shows "unlock P this s =
           (if c = 0 then Inr () else Inl (Fatal_error c),
            this\<lparr>m_mutex := store_through p (m_mutex this)\<rparr>,
            s\<lparr>env := e, calls := calls s @ [Prim_unlock]\<rparr>)"
  using assms by (simp add: unlock_def invoke_def check_error_def)

lemma store_through_object:
  "m_valid w \<Longrightarrow> m_object (store_through (Some x) w) = x"
  by (simp add: store_through_def)

text \<open>
  C7. \<open>lock\<close> and \<open>unlock\<close> each invoke their primitive once, on the handle of the
  stored mutex and the current environment: the environment afterwards is the one the
  primitive left, and the stored mutex is what the primitive wrote through the handle.
  They return normally exactly when the primitive returned zero, and otherwise throw
  the fatal error carrying the code the primitive returned, unchanged.
\<close>

theorem lock_unlock_result:
  assumes "pthread_mutex_lock P (addr (m_mutex this)) (env s) = ((cl, pl), el)"
    and "pthread_mutex_unlock P (addr (m_mutex this)) (env s) = ((cu, pu), eu)"
  shows "calls (snd (snd (lock P this s))) = calls s @ [Prim_lock] \<and>
         (fst (lock P this s) = Inr () \<longleftrightarrow> cl = 0) \<and>
         (cl \<noteq> 0 \<longrightarrow> fst (lock P this s) = Inl (Fatal_error cl)) \<and>
         calls (snd (snd (unlock P this s))) = calls s @ [Prim_unlock] \<and>
         (fst (unlock P this s) = Inr () \<longleftrightarrow> cu = 0) \<and>
         (cu \<noteq> 0 \<longrightarrow> fst (unlock P this s) = Inl (Fatal_error cu)) \<and>
         snd (snd (lock P this s)) = s\<lparr>env := el, calls := calls s @ [Prim_lock]\<rparr> \<and>
         snd (snd (unlock P this s)) = s\<lparr>env := eu, calls := calls s @ [Prim_unlock]\<rparr> \<and>
         fst (snd (lock P this s)) = this\<lparr>m_mutex := store_through pl (m_mutex this)\<rparr> \<and>
         fst (snd (unlock P this s)) = this\<lparr>m_mutex := store_through pu (m_mutex this)\<rparr> \<and>
         m_valid (m_mutex (fst (snd (lock P this s)))) = m_valid (m_mutex this) \<and>
         m_valid (m_mutex (fst (snd (unlock P this s)))) = m_valid (m_mutex this) \<and>
         (m_valid (m_mutex this) \<longrightarrow>
            (\<forall>x. pl = Some x \<longrightarrow> m_object (m_mutex (fst (snd (lock P this s)))) = x) \<and>
            (\<forall>x. pu = Some x \<longrightarrow> m_object (m_mutex (fst (snd (unlock P this s)))) = x))"
  unfolding lock_unfold [OF assms(1)] unlock_unfold [OF assms(2)]
  by (simp add: store_through_object)

theorem lock_unlock_result_witness:
  "fst (lock (stub_pthread 0 0 EBUSY 0 EINVAL) (mutex_from 7) world0) = Inl (Fatal_error EBUSY) \<and>
   fst (unlock (stub_pthread 0 0 EBUSY 0 EINVAL) (mutex_from 7) world0) = Inl (Fatal_error EINVAL) \<and>
   fst (lock (stub_pthread 0 0 0 0 0) (mutex_from 7) world0) = Inr () \<and>
   fst (unlock (stub_pthread 0 0 0 0 0) (mutex_from 7) world0) = Inr () \<and>
   calls (snd (snd (lock (stub_pthread 0 0 0 0 0) (mutex_from 7) world0))) = [Prim_lock] \<and>
   m_valid (m_mutex (mutex_from (7::nat))) \<and>
   snd (lock (stub_pthread 0 0 0 0 0\<lparr>pthread_mutex_lock := stub_ptr_store 0 9\<rparr>)
          (mutex_from 7) world0) =
     (mutex_from 9, \<lparr>env = 1, calls = [Prim_lock]\<rparr>) \<and>
   snd (unlock (stub_pthread 0 0 0 0 0\<lparr>pthread_mutex_unlock := stub_ptr_store EINVAL 4\<rparr>)
          (mutex_from 7) world0) =
     (mutex_from 4, \<lparr>env = 1, calls = [Prim_unlock]\<rparr>)"
proof -
  let ?m = "mutex_from (7::nat)"
  have l: "pthread_mutex_lock (stub_pthread 0 0 cl 0 cu) (addr (m_mutex ?m))
      (env world0) = ((cl, Some 7), Suc 0)" for cl cu
    by (simp add: stub_defs mutex_from_def addr_def)
  have u: "pthread_mutex_unlock (stub_pthread 0 0 cl 0 cu) (addr (m_mutex ?m))
      (env world0) = ((cu, Some 7), Suc 0)" for cl cu
    by (simp add: stub_defs mutex_from_def addr_def)
  let ?P = "stub_pthread 0 0 0 0 0\<lparr>pthread_mutex_lock := stub_ptr_store 0 9\<rparr>"
  let ?Q = "stub_pthread 0 0 0 0 0\<lparr>pthread_mutex_unlock := stub_ptr_store EINVAL 4\<rparr>"
  have lP: "pthread_mutex_lock ?P (addr (m_mutex ?m)) (env world0) = ((0, Some 9), Suc 0)"
    by (simp add: stub_defs stub_ptr_store_def mutex_from_def addr_def)
  have uP: "pthread_mutex_unlock ?P (addr (m_mutex ?m)) (env world0) = ((0, Some 7), Suc 0)"
    by (simp add: stub_defs stub_ptr_store_def mutex_from_def addr_def)
  have lQ: "pthread_mutex_lock ?Q (addr (m_mutex ?m)) (env world0) = ((0, Some 7), Suc 0)"
    by (simp add: stub_defs stub_ptr_store_def mutex_from_def addr_def)
  have uQ: "pthread_mutex_unlock ?Q (addr (m_mutex ?m)) (env world0) = ((EINVAL, Some 4), Suc 0)"
    by (simp add: stub_defs stub_ptr_store_def mutex_from_def addr_def)
  have v: "m_valid (m_mutex ?m)"
    by (simp add: mutex_from_def wrapper_base_from_def)
  have st: "?m\<lparr>m_mutex := store_through (Some x) (m_mutex ?m)\<rparr> = mutex_from x" for x
    by (simp add: mutex_from_def wrapper_base_from_def store_through_def)
  have w1: "world0\<lparr>env := Suc 0, calls := calls world0 @ [c]\<rparr> = \<lparr>env = 1, calls = [c]\<rparr>" for c
    by (simp add: world0_def)
  note A = lock_unlock_result [OF l [of EBUSY EINVAL] u [of EBUSY EINVAL]]
  note B = lock_unlock_result [OF l [of 0 0] u [of 0 0]]
  note C = lock_unlock_result [OF lP uP]
  note D = lock_unlock_result [OF lQ uQ]
  have a1: "fst (lock (stub_pthread 0 0 EBUSY 0 EINVAL) ?m world0) = Inl (Fatal_error EBUSY)"
    using A by (simp add: EBUSY_def)
  have a2: "fst (unlock (stub_pthread 0 0 EBUSY 0 EINVAL) ?m world0) = Inl (Fatal_error EINVAL)"
    using A by (simp add: EINVAL_def)
  have b1: "fst (lock (stub_pthread 0 0 0 0 0) ?m world0) = Inr ()"
    using B by simp
  have b2: "fst (unlock (stub_pthread 0 0 0 0 0) ?m world0) = Inr ()"
    using B by simp
  have b3: "calls (snd (snd (lock (stub_pthread 0 0 0 0 0) ?m world0))) = [Prim_lock]"
    using B by (simp add: world0_def)
  have c1: "snd (lock ?P ?m world0) = (mutex_from 9, \<lparr>env = 1, calls = [Prim_lock]\<rparr>)"
    using C by (simp add: prod_eq_iff st w1)
  have d1: "snd (unlock ?Q ?m world0) = (mutex_from 4, \<lparr>env = 1, calls = [Prim_unlock]\<rparr>)"
    using D by (simp add: prod_eq_iff st w1)
  show ?thesis
    using a1 a2 b1 b2 b3 v c1 d1 by blast
qed

end
